theory Spec2Isabelle
  imports Complex_Main
begin

section \<open>JavaScript values used by the benchmark runner\<close>

text \<open>
  A JavaScript number is modelled as an exact real, extended with the three special
  values of IEEE arithmetic that the runner can produce by dividing by zero. Rounding
  and the sign of zero are not modelled: a zero divisor is the positive zero.
\<close>

datatype jsnum = Num real | PInf | NInf | NaN

fun js_neg :: "jsnum \<Rightarrow> jsnum" where
  "js_neg (Num a) = Num (- a)"
| "js_neg PInf = NInf"
| "js_neg NInf = PInf"
| "js_neg NaN = NaN"

fun js_add :: "jsnum \<Rightarrow> jsnum \<Rightarrow> jsnum" where
  "js_add NaN _ = NaN"
| "js_add _ NaN = NaN"
| "js_add (Num a) (Num b) = Num (a + b)"
| "js_add (Num a) PInf = PInf"
| "js_add (Num a) NInf = NInf"
| "js_add PInf NInf = NaN"
| "js_add PInf _ = PInf"
| "js_add NInf PInf = NaN"
| "js_add NInf _ = NInf"

definition js_sub :: "jsnum \<Rightarrow> jsnum \<Rightarrow> jsnum" where
  "js_sub a b = js_add a (js_neg b)"

fun js_mul :: "jsnum \<Rightarrow> jsnum \<Rightarrow> jsnum" where
  "js_mul NaN _ = NaN"
| "js_mul _ NaN = NaN"
| "js_mul (Num a) (Num b) = Num (a * b)"
| "js_mul (Num a) PInf = (if a > 0 then PInf else if a < 0 then NInf else NaN)"
| "js_mul (Num a) NInf = (if a > 0 then NInf else if a < 0 then PInf else NaN)"
| "js_mul PInf (Num b) = (if b > 0 then PInf else if b < 0 then NInf else NaN)"
| "js_mul NInf (Num b) = (if b > 0 then NInf else if b < 0 then PInf else NaN)"
| "js_mul PInf PInf = PInf"
| "js_mul PInf NInf = NInf"
| "js_mul NInf PInf = NInf"
| "js_mul NInf NInf = PInf"

fun js_div :: "jsnum \<Rightarrow> jsnum \<Rightarrow> jsnum" where
  "js_div NaN _ = NaN"
| "js_div _ NaN = NaN"
| "js_div (Num a) (Num b) =
     (if b \<noteq> 0 then Num (a / b)
      else if a > 0 then PInf else if a < 0 then NInf else NaN)"
| "js_div (Num a) _ = Num 0"
| "js_div PInf (Num b) = (if b \<ge> 0 then PInf else NInf)"
| "js_div NInf (Num b) = (if b \<ge> 0 then NInf else PInf)"
| "js_div _ _ = NaN"

text \<open>\<^verbatim>\<open>Math.pow(x, 2)\<close> and \<^verbatim>\<open>Math.sqrt(x)\<close>.\<close>

fun js_pow2 :: "jsnum \<Rightarrow> jsnum" where
  "js_pow2 (Num a) = Num (a ^ 2)"
| "js_pow2 NaN = NaN"
| "js_pow2 _ = PInf"

fun js_sqrt :: "jsnum \<Rightarrow> jsnum" where
  "js_sqrt (Num a) = (if a \<ge> 0 then Num (sqrt a) else NaN)"
| "js_sqrt PInf = PInf"
| "js_sqrt _ = NaN"

text \<open>The comparison \<^verbatim>\<open>a >= b\<close>: false whenever an operand is not a number.\<close>

fun js_ge :: "jsnum \<Rightarrow> jsnum \<Rightarrow> bool" where
  "js_ge NaN _ = False"
| "js_ge _ NaN = False"
| "js_ge (Num a) (Num b) = (a \<ge> b)"
| "js_ge _ NInf = True"
| "js_ge PInf _ = True"
| "js_ge _ _ = False"

text \<open>
  The values that reach the runner: primitives, error objects (name and message),
  native promises (told apart by an identifier), plain objects and functions. Objects
  and functions carry their own properties; a function is named by an identifier whose
  behaviour is supplied separately.
\<close>

datatype jsval =
    VUndefined
  | VNull
  | VBool bool
  | VNum jsnum
  | VStr string
  | VErr string string
  | VPromise nat
  | VObj "(string \<times> jsval) list"
  | VFun nat "(string \<times> jsval) list"

fun js_typeof :: "jsval \<Rightarrow> string" where
  "js_typeof VUndefined = ''undefined''"
| "js_typeof VNull = ''object''"
| "js_typeof (VBool _) = ''boolean''"
| "js_typeof (VNum _) = ''number''"
| "js_typeof (VStr _) = ''string''"
| "js_typeof (VErr _ _) = ''object''"
| "js_typeof (VPromise _) = ''object''"
| "js_typeof (VObj _) = ''object''"
| "js_typeof (VFun _ _) = ''function''"

text \<open>Truthiness, as tested by \<^verbatim>\<open>x ? a : b\<close>, \<^verbatim>\<open>x && y\<close> and \<^verbatim>\<open>if (x)\<close>.\<close>

fun truthy :: "jsval \<Rightarrow> bool" where
  "truthy VUndefined = False"
| "truthy VNull = False"
| "truthy (VBool b) = b"
| "truthy (VNum (Num a)) = (a \<noteq> 0)"
| "truthy (VNum NaN) = False"
| "truthy (VNum _) = True"
| "truthy (VStr s) = (s \<noteq> [])"
| "truthy _ = True"

text \<open>The TypeError the engine raises; the wording of its message is not modelled.\<close>

definition typeError :: jsval where
  "typeError = VErr ''TypeError'' ''not a function or property of null''"

definition lookup_prop :: "(string \<times> jsval) list \<Rightarrow> string \<Rightarrow> jsval" where
  "lookup_prop ps k = (case map_of ps k of None \<Rightarrow> VUndefined | Some v \<Rightarrow> v)"

text \<open>
  Property access \<^verbatim>\<open>v.k\<close>: a TypeError on \<^verbatim>\<open>null\<close> and \<^verbatim>\<open>undefined\<close>, the own
  property of an object or function, \<^verbatim>\<open>undefined\<close> where there is none. (Inherited
  properties are not modelled, except \<^verbatim>\<open>then\<close> of a native promise.)
\<close>

fun js_get :: "jsval \<Rightarrow> string \<Rightarrow> jsval + jsval" where
  "js_get VUndefined k = Inl typeError"
| "js_get VNull k = Inl typeError"
| "js_get (VObj ps) k = Inr (lookup_prop ps k)"
| "js_get (VFun f ps) k = Inr (lookup_prop ps k)"
| "js_get (VErr n m) k =
     Inr (if k = ''name'' then VStr n else if k = ''message'' then VStr m else VUndefined)"
| "js_get (VPromise i) k = Inr (if k = ''then'' then VFun 0 [] else VUndefined)"
| "js_get _ k = Inr VUndefined"

text \<open>\<^verbatim>\<open>isPromise\<close>, lines 1 to 5.\<close>

definition isPromise :: "jsval \<Rightarrow> bool" where
  "isPromise obj =
     (case obj of
        VPromise _ \<Rightarrow> True
      | _ \<Rightarrow>
        ((obj \<noteq> VNull \<and> js_typeof obj = ''object'') \<or> js_typeof obj = ''function'') \<and>
        (case js_get obj ''then'' of Inl _ \<Rightarrow> False | Inr t \<Rightarrow> js_typeof t = ''function''))"

text \<open>\<^verbatim>\<open>abortError\<close>, lines 7 to 11: an Error whose name is set to AbortError.\<close>

fun set_name :: "jsval \<Rightarrow> string \<Rightarrow> jsval" where
  "set_name (VErr n m) n' = VErr n' m"
| "set_name v n' = v"

definition abortError :: "string \<Rightarrow> jsval" where
  "abortError message = (let err = VErr ''Error'' message in set_name err ''AbortError'')"

section \<open>The runner's data\<close>

record sample =
  hits :: nat
  duration :: int

record totals =
  runs :: nat
  avg :: jsnum
  stdDev :: jsnum

text \<open>\<^verbatim>\<open>BenchmarkResults\<close>, lines 13 to 19.\<close>

record unit_result =
  res_name :: string
  res_totals :: totals
  res_samples :: "sample list"
  res_warmup :: "sample option"

text \<open>
  One entry of \<^verbatim>\<open>p.units\<close>, as \<^verbatim>\<open>add\<close> builds it; \<^verbatim>\<open>run\<close> attaches
  \<^verbatim>\<open>samples\<close> and \<^verbatim>\<open>warmup\<close> to it (until then the list is empty and there is no
  warmup sample).
\<close>

record unit_desc =
  name :: string
  prepare :: jsval
  unit :: jsval
  teardown :: jsval
  samples :: "sample list"
  warmup :: "sample option"

text \<open>
  What \<^verbatim>\<open>run\<close> leaves behind, in program order, for the properties that speak about
  order: a teardown that completed (line 211), the statistics computed for a unit
  (lines 217 to 223), a call of \<^verbatim>\<open>onCycle\<close> with its argument (line 250).
\<close>

datatype event =
    EvTeardown nat
  | EvStats nat nat jsnum jsnum
  | EvCycle unit_result

text \<open>
  The state: the fields of \<^verbatim>\<open>this._p\<close> (lines 25 to 31); the world outside the
  runner, namely the value \<^verbatim>\<open>Date.now()\<close> returns and whatever the caller's functions
  close over; the local \<^verbatim>\<open>unitResults\<close> of \<^verbatim>\<open>run\<close>; and the trace of events.
  The settings are integers: milliseconds and a count.
\<close>

record 'u state =
  units :: "unit_desc list"
  aborted :: bool
  warmupTime :: int
  maxUnitTime :: int
  runsPerUnit :: int
  clock :: int
  user :: 'u
  unitResults :: "unit_result list"
  trace :: "event list"

definition new_Benchmark :: "int \<Rightarrow> 'u \<Rightarrow> 'u state" where
  "new_Benchmark c u =
     \<lparr>units = [], aborted = False, warmupTime = 50, maxUnitTime = 5000, runsPerUnit = 10,
      clock = c, user = u, unitResults = [], trace = []\<rparr>"

text \<open>\<^verbatim>\<open>add\<close>, lines 42 to 53. The fields of the literal are evaluated in order.\<close>

definition add :: "string \<Rightarrow> jsval \<Rightarrow> 'u state \<Rightarrow> jsval + 'u state" where
  "add nm options st =
     (case (if truthy options then js_get options ''prepare'' else Inr VNull) of
        Inl e \<Rightarrow> Inl e
      | Inr pr \<Rightarrow>
     (case (if js_typeof options = ''function'' then Inr options else js_get options ''unit'') of
        Inl e \<Rightarrow> Inl e
      | Inr un \<Rightarrow>
     (case (if truthy options then js_get options ''teardown'' else Inr VNull) of
        Inl e \<Rightarrow> Inl e
      | Inr td \<Rightarrow>
        Inr (st\<lparr>units := units st @
               [\<lparr>name = nm, prepare = pr, unit = un, teardown = td,
                 samples = [], warmup = None\<rparr>]\<rparr>))))"

definition abort :: "'u state \<Rightarrow> 'u state" where
  "abort st = st\<lparr>aborted := True\<rparr>"

definition setWarmupTime :: "int \<Rightarrow> 'u state \<Rightarrow> 'u state" where
  "setWarmupTime ms st = st\<lparr>warmupTime := ms\<rparr>"

definition setMaxUnitTime :: "int \<Rightarrow> 'u state \<Rightarrow> 'u state" where
  "setMaxUnitTime ms st = st\<lparr>maxUnitTime := ms\<rparr>"

definition setRunsPerUnit :: "int \<Rightarrow> 'u state \<Rightarrow> 'u state" where
  "setRunsPerUnit n st = st\<lparr>runsPerUnit := n\<rparr>"

text \<open>Line 150, the clamped count, and line 151, the length of a sample window.\<close>

definition clampedRuns :: "'u state \<Rightarrow> int" where
  "clampedRuns st = max (runsPerUnit st) 1"

definition sampleRunTime :: "'u state \<Rightarrow> jsnum" where
  "sampleRunTime st = js_div (Num (of_int (maxUnitTime st))) (Num (of_int (runsPerUnit st)))"

section \<open>The caller's functions and the world around the runner\<close>

text \<open>
  What one call of a caller-supplied function does, seen from the runner: it returns a
  value or throws one, time passes, the caller's own state changes, and it may have
  called \<^verbatim>\<open>abort()\<close>. The caller's functions use no other operation of the runner
  while \<^verbatim>\<open>run\<close> is in progress.
\<close>

record 'u reaction =
  outcome :: "jsval + jsval"
  now_after :: int
  user_after :: 'u
  calls_abort :: bool

text \<open>
  The environment gives the behaviour of every function identifier (called with no
  argument, or with a result when it is \<^verbatim>\<open>onCycle\<close>), what awaiting a promise or
  thenable does, and what the other tasks of the event loop do while the runner waits
  for its zero-delay timer.
\<close>

record 'u env =
  call_fn :: "nat \<Rightarrow> unit_result option \<Rightarrow> int \<Rightarrow> 'u \<Rightarrow> 'u reaction"
  settle :: "jsval \<Rightarrow> int \<Rightarrow> 'u \<Rightarrow> 'u reaction"
  idle :: "int \<Rightarrow> 'u \<Rightarrow> 'u reaction"

definition absorb :: "'u reaction \<Rightarrow> 'u state \<Rightarrow> 'u state" where
  "absorb r st =
     st\<lparr>clock := now_after r, user := user_after r, aborted := (aborted st \<or> calls_abort r)\<rparr>"

text \<open>A call \<^verbatim>\<open>f(...)\<close>: a TypeError when \<^verbatim>\<open>f\<close> is not a function.\<close>

definition invoke ::
  "'u env \<Rightarrow> jsval \<Rightarrow> unit_result option \<Rightarrow> 'u state \<Rightarrow> (jsval + jsval) \<times> 'u state" where
  "invoke env f arg st =
     (case f of
        VFun fid _ \<Rightarrow>
          (let r = call_fn env fid arg (clock st) (user st) in (outcome r, absorb r st))
      | _ \<Rightarrow> (Inl typeError, st))"

text \<open>\<^verbatim>\<open>await v\<close>: a promise or thenable settles; any other value is passed on.\<close>

definition await :: "'u env \<Rightarrow> jsval \<Rightarrow> 'u state \<Rightarrow> (jsval + jsval) \<times> 'u state" where
  "await env v st =
     (if isPromise v
      then (let r = settle env v (clock st) (user st) in (outcome r, absorb r st))
      else (Inr v, st))"

text \<open>\<^verbatim>\<open>await f()\<close>, as at lines 191 and 211.\<close>

definition call_await :: "'u env \<Rightarrow> jsval \<Rightarrow> 'u state \<Rightarrow> (jsval + jsval) \<times> 'u state" where
  "call_await env f st =
     (case invoke env f None st of
        (Inl e, st1) \<Rightarrow> (Inl e, st1)
      | (Inr v, st1) \<Rightarrow> await env v st1)"

text \<open>The zero-delay timer of lines 203 to 207: the other tasks run first.\<close>

definition yield :: "'u env \<Rightarrow> 'u state \<Rightarrow> 'u state" where
  "yield env st = absorb (idle env (clock st) (user st)) st"

section \<open>The sampling engine\<close>

definition set_samples :: "nat \<Rightarrow> sample list \<Rightarrow> 'u state \<Rightarrow> 'u state" where
  "set_samples i xs st = st\<lparr>units := (units st)[i := (units st ! i)\<lparr>samples := xs\<rparr>]\<rparr>"

definition push_sample :: "nat \<Rightarrow> sample \<Rightarrow> 'u state \<Rightarrow> 'u state" where
  "push_sample i s st = set_samples i (samples (units st ! i) @ [s]) st"

text \<open>
  The cancellation checkpoint of lines 146, 200 and 225.
\<close>

definition checkpoint :: "'u state \<Rightarrow> jsval + unit" where
  "checkpoint st = (if aborted st = True then Inl (abortError ''abort() was called'') else Inr ())"

text \<open>
  The \<^verbatim>\<open>while\<close> loop of \<^verbatim>\<open>doRun\<close>, lines 167 to 187, for the unit at index \<open>i\<close>.
  The loop may never end (the clock may never reach \<open>endTime\<close>), so it takes fuel,
  one unit per iteration, and returns \<open>None\<close> when the fuel is used up.
\<close>

fun doRun_loop ::
  "nat \<Rightarrow> 'u env \<Rightarrow> nat \<Rightarrow> jsval \<Rightarrow> bool \<Rightarrow> int \<Rightarrow> jsnum \<Rightarrow> nat \<Rightarrow> 'u state \<Rightarrow>
   ((jsval + unit) \<times> 'u state) option" where
  "doRun_loop 0 env i unitFn fnIsPromise startTime endTime hts st = None"
| "doRun_loop (Suc fuel) env i unitFn fnIsPromise startTime endTime hts st =
     (if aborted st \<noteq> True then
        (case invoke env unitFn None st of
           (Inl e, st1) \<Rightarrow> Some (Inl e, st1)
         | (Inr res, st1) \<Rightarrow>
           (case (if fnIsPromise then await env res st1 else (Inr res, st1)) of
              (Inl e, st2) \<Rightarrow> Some (Inl e, st2)
            | (Inr _, st2) \<Rightarrow>
              (let hts' = hts + 1; now = clock st2 in
               if js_ge (Num (of_int now)) endTime
               then Some (Inr (), push_sample i \<lparr>hits = hts', duration = now - startTime\<rparr> st2)
               else doRun_loop fuel env i unitFn fnIsPromise startTime endTime hts' st2)))
      else Some (Inr (), st))"

text \<open>\<^verbatim>\<open>doRun\<close>, lines 162 to 188.\<close>

definition doRun ::
  "nat \<Rightarrow> 'u env \<Rightarrow> nat \<Rightarrow> jsval \<Rightarrow> bool \<Rightarrow> jsnum \<Rightarrow> 'u state \<Rightarrow>
   ((jsval + unit) \<times> 'u state) option" where
  "doRun fuel env i unitFn fnIsPromise srt st =
     (let startTime = clock st;
          endTime = js_add (Num (of_int startTime)) srt
      in doRun_loop fuel env i unitFn fnIsPromise startTime endTime 0 st)"

text \<open>The \<^verbatim>\<open>for\<close> loop over the runs, lines 197 to 208.\<close>

function runs_loop ::
  "nat \<Rightarrow> 'u env \<Rightarrow> nat \<Rightarrow> jsval \<Rightarrow> bool \<Rightarrow> jsnum \<Rightarrow> int \<Rightarrow> nat \<Rightarrow> 'u state \<Rightarrow>
   ((jsval + unit) \<times> 'u state) option" where
  "runs_loop fuel env i unitFn fnIsPromise srt actualRunCount rn st =
     (if int rn < actualRunCount then
        (case checkpoint st of
           Inl e \<Rightarrow> Some (Inl e, st)
         | Inr _ \<Rightarrow>
           (case doRun fuel env i unitFn fnIsPromise srt (yield env st) of
              None \<Rightarrow> None
            | Some (Inl e, st1) \<Rightarrow> Some (Inl e, st1)
            | Some (Inr _, st1) \<Rightarrow>
                runs_loop fuel env i unitFn fnIsPromise srt actualRunCount (rn + 1) st1))
      else Some (Inr (), st))"
  by pat_completeness auto
termination
  by (relation "measure (\<lambda>(fuel, env, i, unitFn, fnIsPromise, srt, actualRunCount, rn, st).
                  nat (actualRunCount - int rn))") auto

declare runs_loop.simps [simp del]

text \<open>
  The first half of the body of the loop over the units, lines 149 to 208: the settings
  are read, the samples are emptied, \<^verbatim>\<open>prepare\<close> is awaited, the unit function is
  called once to see whether it returns a promise, and the runs are made.
\<close>

definition sampling ::
  "nat \<Rightarrow> 'u env \<Rightarrow> nat \<Rightarrow> 'u state \<Rightarrow> ((jsval + unit) \<times> 'u state) option" where
  "sampling fuel env i st =
     (let runsPerUnit' = clampedRuns st;
          srt = sampleRunTime st;
          hasWarmupRun = (warmupTime st > 0);
          actualRunCount = (if hasWarmupRun then runsPerUnit' + 1 else runsPerUnit');
          st0 = set_samples i [] st;
          unitPrepareFn = prepare (units st0 ! i);
          unitFn = unit (units st0 ! i)
      in case (if js_typeof unitPrepareFn = ''function''
               then call_await env unitPrepareFn st0 else (Inr VUndefined, st0)) of
           (Inl e, st1) \<Rightarrow> Some (Inl e, st1)
         | (Inr _, st1) \<Rightarrow>
           (case invoke env unitFn None st1 of
              (Inl e, st2) \<Rightarrow> Some (Inl e, st2)
            | (Inr res, st2) \<Rightarrow>
                runs_loop fuel env i unitFn (isPromise res) srt actualRunCount 0 st2))"

section \<open>Aggregation and reporting\<close>

text \<open>Line 211: \<^verbatim>\<open>teardown\<close> is awaited when it is a function.\<close>

definition run_teardown :: "'u env \<Rightarrow> nat \<Rightarrow> 'u state \<Rightarrow> (jsval + jsval) \<times> 'u state" where
  "run_teardown env i st =
     (let unitTeardownFn = teardown (units st ! i)
      in if js_typeof unitTeardownFn = ''function''
         then (case call_await env unitTeardownFn st of
                 (Inl e, st1) \<Rightarrow> (Inl e, st1)
               | (Inr v, st1) \<Rightarrow> (Inr v, st1\<lparr>trace := trace st1 @ [EvTeardown i]\<rparr>))
         else (Inr VUndefined, st))"

text \<open>Lines 213 to 215: the first sample becomes the warmup sample.\<close>

definition split_warmup :: "nat \<Rightarrow> 'u state \<Rightarrow> 'u state" where
  "split_warmup i st =
     (let u = units st ! i
      in if warmupTime st > 0 \<and> length (samples u) > 0
         then st\<lparr>units := (units st)[i := u\<lparr>warmup := Some (hd (samples u)),
                                             samples := tl (samples u)\<rparr>]\<rparr>
         else st)"

text \<open>Lines 218 to 223: the mean and the standard deviation of the hits.\<close>

definition avg_hits :: "sample list \<Rightarrow> jsnum" where
  "avg_hits smp =
     js_div (foldl (\<lambda>s v. js_add s (Num (of_nat (hits v)))) (Num 0) smp)
            (Num (of_nat (length smp)))"

definition stdDev_hits :: "sample list \<Rightarrow> jsnum" where
  "stdDev_hits smp =
     js_sqrt (js_div
       (foldl (\<lambda>s v. js_add s v) (Num 0)
          (map (\<lambda>v. js_pow2 (js_sub (Num (of_nat (hits v))) (avg_hits smp))) smp))
       (Num (of_nat (length smp))))"

text \<open>\<^verbatim>\<open>toPerSec\<close>, lines 228 to 230.\<close>

definition toPerSec :: "jsnum \<Rightarrow> jsnum \<Rightarrow> jsnum" where
  "toPerSec srt count = js_mul count (js_div (Num 1000) srt)"

text \<open>Lines 234 to 246: the result object of a unit.\<close>

definition make_results :: "jsnum \<Rightarrow> unit_desc \<Rightarrow> unit_result" where
  "make_results srt u =
     \<lparr>res_name = name u,
      res_totals = \<lparr>runs = length (samples u),
                    avg = toPerSec srt (avg_hits (samples u)),
                    stdDev = toPerSec srt (stdDev_hits (samples u))\<rparr>,
      res_samples = samples u,
      res_warmup = (case warmup u of Some w \<Rightarrow> Some w | None \<Rightarrow> None)\<rparr>"

text \<open>Line 250: \<^verbatim>\<open>onCycle && onCycle(results)\<close>.\<close>

definition call_onCycle ::
  "'u env \<Rightarrow> jsval \<Rightarrow> unit_result \<Rightarrow> 'u state \<Rightarrow> (jsval + unit) \<times> 'u state" where
  "call_onCycle env onCycle results st =
     (if truthy onCycle
      then (case onCycle of
              VFun _ _ \<Rightarrow>
                (case invoke env onCycle (Some results) (st\<lparr>trace := trace st @ [EvCycle results]\<rparr>) of
                   (Inl e, st1) \<Rightarrow> (Inl e, st1)
                 | (Inr _, st1) \<Rightarrow> (Inr (), st1))
            | _ \<Rightarrow> (Inl typeError, st))
      else (Inr (), st))"

text \<open>
  The second half of the body of the loop over the units, lines 210 to 250: teardown,
  warmup split, statistics, cancellation checkpoint, result, \<^verbatim>\<open>onCycle\<close>. The locals
  \<^verbatim>\<open>sampleRunTime\<close> and \<^verbatim>\<open>hasWarmupRun\<close> of lines 151 and 153 are read again
  from the settings, which nothing changes while \<^verbatim>\<open>run\<close> is in progress.
\<close>

definition finish :: "'u env \<Rightarrow> jsval \<Rightarrow> nat \<Rightarrow> 'u state \<Rightarrow> (jsval + unit) \<times> 'u state" where
  "finish env onCycle i st =
     (case run_teardown env i st of
        (Inl e, st1) \<Rightarrow> (Inl e, st1)
      | (Inr _, st1) \<Rightarrow>
        (let st2 = split_warmup i st1;
             u = units st2 ! i;
             st3 = st2\<lparr>trace := trace st2 @
                     [EvStats i (length (samples u)) (avg_hits (samples u)) (stdDev_hits (samples u))]\<rparr>
         in case checkpoint st3 of
              Inl e \<Rightarrow> (Inl e, st3)
            | Inr _ \<Rightarrow>
              (let results = make_results (sampleRunTime st3) u;
                   st4 = st3\<lparr>unitResults := unitResults st3 @ [results]\<rparr>
               in call_onCycle env onCycle results st4)))"

section \<open>\<^verbatim>\<open>run\<close>\<close>

text \<open>One pass of the loop over the units, lines 145 to 251, for the unit at index \<open>i\<close>.\<close>

definition run_unit ::
  "nat \<Rightarrow> 'u env \<Rightarrow> jsval \<Rightarrow> nat \<Rightarrow> 'u state \<Rightarrow> ((jsval + unit) \<times> 'u state) option" where
  "run_unit fuel env onCycle i st =
     (case checkpoint st of
        Inl e \<Rightarrow> Some (Inl e, st)
      | Inr _ \<Rightarrow>
        (case sampling fuel env i st of
           None \<Rightarrow> None
         | Some (Inl e, st1) \<Rightarrow> Some (Inl e, st1)
         | Some (Inr _, st1) \<Rightarrow> Some (finish env onCycle i st1)))"

text \<open>
  The loop over \<^verbatim>\<open>p.units\<close>, by index. The caller's functions register no unit while
  \<^verbatim>\<open>run\<close> is in progress, so the indices are those of the units present at its start.
\<close>

fun units_loop ::
  "nat \<Rightarrow> 'u env \<Rightarrow> jsval \<Rightarrow> nat list \<Rightarrow> 'u state \<Rightarrow>
   ((jsval + unit_result list) \<times> 'u state) option" where
  "units_loop fuel env onCycle [] st = Some (Inr (unitResults st), st)"
| "units_loop fuel env onCycle (i # rest) st =
     (case run_unit fuel env onCycle i st of
        None \<Rightarrow> None
      | Some (Inl e, st1) \<Rightarrow> Some (Inl e, st1)
      | Some (Inr _, st1) \<Rightarrow> units_loop fuel env onCycle rest st1)"

text \<open>
  \<^verbatim>\<open>run\<close>, lines 137 to 254. \<open>Inl\<close> is the rejection of the promise it returns,
  \<open>Inr\<close> its fulfilment, \<open>None\<close> a run that is still going when the fuel is used up.
  The trace is that of this run.
\<close>

definition run ::
  "nat \<Rightarrow> 'u env \<Rightarrow> jsval \<Rightarrow> 'u state \<Rightarrow> ((jsval + unit_result list) \<times> 'u state) option" where
  "run fuel env options st =
     (let st0 = st\<lparr>aborted := False, unitResults := [], trace := []\<rparr>
      in case (if truthy options then js_get options ''onCycle'' else Inr options) of
           Inl e \<Rightarrow> Some (Inl e, st0)
         | Inr onCycle \<Rightarrow> units_loop fuel env onCycle [0 ..< length (units st0)] st0)"


section \<open>Notions used to state the properties\<close>

text \<open>The arguments of the calls of \<^verbatim>\<open>onCycle\<close> recorded in a trace, in order.\<close>

fun cycle_args :: "event list \<Rightarrow> unit_result list" where
  "cycle_args [] = []"
| "cycle_args (EvCycle r # es) = r # cycle_args es"
| "cycle_args (_ # es) = cycle_args es"



text \<open>
  The statistics as the specification words them: the arithmetic mean of the hits, their
  population standard deviation (the squared deviations are divided by the number of
  samples), and the conversion to a rate.
\<close>

definition mean_hits :: "sample list \<Rightarrow> real" where
  "mean_hits smp = (\<Sum>s\<leftarrow>smp. real (hits s)) / real (length smp)"

definition population_stdDev_hits :: "sample list \<Rightarrow> real" where
  "population_stdDev_hits smp =
     sqrt ((\<Sum>s\<leftarrow>smp. (real (hits s) - mean_hits smp) ^ 2) / real (length smp))"

definition rate :: "jsnum \<Rightarrow> real \<Rightarrow> jsnum" where
  "rate srt x = js_mul (Num x) (js_div (Num 1000) srt)"

text \<open>
  Two relations between a state and a later one. \<open>outside\<close>: only the world and the
  cancellation flag have changed, and the flag has not been cleared. \<open>recorded\<close>: in
  addition the unit at index \<open>i\<close> has received the samples \<open>new\<close>, each with at least
  one hit and a duration of at least \<open>srt\<close>.
\<close>

definition outside :: "'u state \<Rightarrow> 'u state \<Rightarrow> bool" where
  "outside st st' \<longleftrightarrow>
     units st' = units st \<and> warmupTime st' = warmupTime st \<and> maxUnitTime st' = maxUnitTime st \<and>
     runsPerUnit st' = runsPerUnit st \<and> unitResults st' = unitResults st \<and> trace st' = trace st \<and>
     (aborted st \<longrightarrow> aborted st')"

definition recorded :: "nat \<Rightarrow> jsnum \<Rightarrow> sample list \<Rightarrow> 'u state \<Rightarrow> 'u state \<Rightarrow> bool" where
  "recorded i srt new st st' \<longleftrightarrow>
     units st' = (units st)[i := (units st ! i)\<lparr>samples := samples (units st ! i) @ new\<rparr>] \<and>
     warmupTime st' = warmupTime st \<and> maxUnitTime st' = maxUnitTime st \<and>
     runsPerUnit st' = runsPerUnit st \<and> unitResults st' = unitResults st \<and> trace st' = trace st \<and>
     (aborted st \<longrightarrow> aborted st') \<and>
     (\<forall>s \<in> set new. 1 \<le> hits s \<and> js_ge (Num (of_int (duration s))) srt)"

section \<open>Example inputs\<close>

text \<open>
  An environment for concrete runs. The caller's state counts the calls made so far.
  Functions 1 and 4 are unit functions that take 100 ms; function 4 calls
  \<^verbatim>\<open>abort()\<close> when two calls have been made before. Function 9 throws. Every other function returns
  at once. Nothing else happens while the runner waits.
\<close>

definition example_env :: "nat env" where
  "example_env =
     \<lparr>call_fn = (\<lambda>f a c u.
        \<lparr>outcome = (if f = 9 then Inl (VErr ''Error'' ''boom'') else Inr VUndefined),
         now_after = (if f = 1 \<or> f = 4 then c + 100 else c),
         user_after = u + 1,
         calls_abort = (f = 4 \<and> u = 2)\<rparr>),
      settle = (\<lambda>v c u.
        \<lparr>outcome = Inr VUndefined, now_after = c, user_after = u, calls_abort = False\<rparr>),
      idle = (\<lambda>c u.
        \<lparr>outcome = Inr VUndefined, now_after = c, user_after = u, calls_abort = False\<rparr>)\<rparr>"

text \<open>A runner with one unit and the given settings, at time 0.\<close>

definition example_runner :: "int \<Rightarrow> int \<Rightarrow> int \<Rightarrow> jsval \<Rightarrow> jsval \<Rightarrow> nat state" where
  "example_runner w m r fn td =
     \<lparr>units = [\<lparr>name = ''a'', prepare = VUndefined, unit = fn, teardown = td,
                samples = [], warmup = None\<rparr>],
      aborted = False, warmupTime = w, maxUnitTime = m, runsPerUnit = r,
      clock = 0, user = 0, unitResults = [], trace = []\<rparr>"

text \<open>
  A runner whose unit function is function 1, with a warmup run, two runs and 400 ms
  for the unit; then its states after the sampling phase, after the whole pass with no
  \<^verbatim>\<open>onCycle\<close>, and after \<^verbatim>\<open>run\<close> with function 2 as \<^verbatim>\<open>onCycle\<close>.
\<close>

definition steady_runner :: "nat state" where
  "steady_runner = example_runner 50 400 2 (VFun 1 []) VUndefined"

definition steady_sample :: sample where
  "steady_sample = \<lparr>hits = 2, duration = 200\<rparr>"

definition steady_result :: unit_result where
  "steady_result =
     \<lparr>res_name = ''a'', res_totals = \<lparr>runs = 2, avg = Num 10, stdDev = Num 0\<rparr>,
      res_samples = [steady_sample, steady_sample], res_warmup = Some steady_sample\<rparr>"

definition steady_sampled :: "nat state" where
  "steady_sampled =
     \<lparr>units = [\<lparr>name = ''a'', prepare = VUndefined, unit = VFun 1 [], teardown = VUndefined,
                samples = [steady_sample, steady_sample, steady_sample], warmup = None\<rparr>],
      aborted = False, warmupTime = 50, maxUnitTime = 400, runsPerUnit = 2,
      clock = 700, user = 7, unitResults = [], trace = []\<rparr>"

definition steady_done :: "nat state" where
  "steady_done =
     \<lparr>units = [\<lparr>name = ''a'', prepare = VUndefined, unit = VFun 1 [], teardown = VUndefined,
                samples = [steady_sample, steady_sample], warmup = Some steady_sample\<rparr>],
      aborted = False, warmupTime = 50, maxUnitTime = 400, runsPerUnit = 2,
      clock = 700, user = 7, unitResults = [steady_result],
      trace = [EvStats 0 2 (Num 2) (Num 0)]\<rparr>"

definition steady_reported :: "nat state" where
  "steady_reported =
     \<lparr>units = [\<lparr>name = ''a'', prepare = VUndefined, unit = VFun 1 [], teardown = VUndefined,
                samples = [steady_sample, steady_sample], warmup = Some steady_sample\<rparr>],
      aborted = False, warmupTime = 50, maxUnitTime = 400, runsPerUnit = 2,
      clock = 700, user = 8, unitResults = [steady_result],
      trace = [EvStats 0 2 (Num 2) (Num 0), EvCycle steady_result]\<rparr>"









section \<open>Lemmas about the sampling engine\<close>

lemma outside_refl: "outside st st"
  by (simp add: outside_def)

lemma outside_trans: "outside a b \<Longrightarrow> outside b c \<Longrightarrow> outside a c"
  by (simp add: outside_def)

lemma outside_absorb: "outside st (absorb r st)"
  by (simp add: outside_def absorb_def)

lemma outside_invoke: "invoke env f a st = (r, st') \<Longrightarrow> outside st st'"
  by (auto simp: invoke_def Let_def outside_absorb outside_refl split: jsval.splits)

lemma outside_await: "await env v st = (r, st') \<Longrightarrow> outside st st'"
  by (auto simp: await_def Let_def outside_absorb outside_refl split: if_splits)

lemma outside_call_await: "call_await env f st = (r, st') \<Longrightarrow> outside st st'"
  by (auto simp: call_await_def split: prod.splits sum.splits
      dest!: outside_invoke outside_await intro: outside_trans)

lemma outside_yield: "outside st (yield env st)"
  by (simp add: yield_def outside_absorb)

lemma recorded_outside: "outside st st' \<Longrightarrow> recorded i srt [] st st'"
  by (simp add: outside_def recorded_def)

lemma recorded_trans:
  "i < length (units st) \<Longrightarrow> recorded i srt a st st1 \<Longrightarrow> recorded i srt b st1 st2 \<Longrightarrow>
   recorded i srt (a @ b) st st2"
  by (auto simp: recorded_def)

lemma recorded_push:
  "1 \<le> hits s \<Longrightarrow> js_ge (Num (of_int (duration s))) srt \<Longrightarrow> recorded i srt [s] st (push_sample i s st)"
  by (simp add: recorded_def push_sample_def set_samples_def)

lemma window_closed:
  "js_ge (Num (of_int now)) (js_add (Num (of_int start)) srt) \<Longrightarrow>
   js_ge (Num (of_int (now - start))) srt"
  by (cases srt) auto

lemma doRun_loop_recorded:
  "doRun_loop fuel env i unitFn p start (js_add (Num (of_int start)) srt) hts st = Some (out, st') \<Longrightarrow>
   i < length (units st) \<Longrightarrow>
   \<exists>new. recorded i srt new st st' \<and> length new \<le> 1 \<and>
         (out = Inr () \<and> \<not> aborted st' \<longrightarrow> length new = 1)"
proof (induction fuel arbitrary: hts st)
  case 0
  then show ?case by simp
next
  case (Suc fuel)
  show ?case
  proof (cases "aborted st")
    case True
    with Suc.prems have "out = Inr ()" "st' = st" by auto
    with True show ?thesis
      by (intro exI[of _ "[]"]) (simp add: recorded_outside outside_refl)
  next
    case False
    obtain r1 st1 where inv: "invoke env unitFn None st = (r1, st1)" by force
    have o1: "outside st st1" using inv by (rule outside_invoke)
    show ?thesis
    proof (cases r1)
      case (Inl e)
      with Suc.prems False inv have "out = Inl e" "st' = st1" by auto
      with o1 show ?thesis
        by (intro exI[of _ "[]"]) (simp add: recorded_outside)
    next
      case (Inr res)
      obtain r2 st2 where aw: "(if p then await env res st1 else (Inr res, st1)) = (r2, st2)" by force
      have o2: "outside st1 st2" using aw by (auto split: if_splits dest: outside_await simp: outside_refl)
      have o12: "outside st st2" using o1 o2 by (rule outside_trans)
      show ?thesis
      proof (cases r2)
        case (Inl e)
        with Suc.prems False inv Inr aw have "out = Inl e" "st' = st2" by auto
        with o12 show ?thesis
          by (intro exI[of _ "[]"]) (simp add: recorded_outside)
      next
        case r2: (Inr v)
        show ?thesis
        proof (cases "js_ge (Num (of_int (clock st2))) (js_add (Num (of_int start)) srt)")
          case True
          let ?s = "\<lparr>hits = hts + 1, duration = clock st2 - start\<rparr>"
          from Suc.prems False inv Inr aw r2 True
          have res: "out = Inr ()" "st' = push_sample i ?s st2" by (auto simp: Let_def)
          have "recorded i srt [?s] st2 st'" unfolding res
            using window_closed[OF True] by (intro recorded_push) simp_all
          with recorded_trans[OF Suc.prems(2) recorded_outside[OF o12], of srt "[?s]" st']
          have "recorded i srt [?s] st st'" by simp
          then show ?thesis by (intro exI[of _ "[?s]"]) simp
        next
          case notyet: False
          from Suc.prems False inv Inr aw r2 notyet
          have rec: "doRun_loop fuel env i unitFn p start (js_add (Num (of_int start)) srt) (hts + 1) st2 = Some (out, st')"
            by (auto simp: Let_def)
          have len: "i < length (units st2)" using o12 Suc.prems(2) by (simp add: outside_def)
          from Suc.IH[OF rec len] obtain new where
            n: "recorded i srt new st2 st'" "length new \<le> 1" "out = Inr () \<and> \<not> aborted st' \<longrightarrow> length new = 1"
            by blast
          from recorded_trans[OF Suc.prems(2) recorded_outside[OF o12] n(1)]
          have "recorded i srt new st st'" by simp
          with n show ?thesis by blast
        qed
      qed
    qed
  qed
qed

lemma doRun_recorded:
  "doRun fuel env i unitFn p srt st = Some (out, st') \<Longrightarrow> i < length (units st) \<Longrightarrow>
   \<exists>new. recorded i srt new st st' \<and> length new \<le> 1 \<and>
         (out = Inr () \<and> \<not> aborted st' \<longrightarrow> length new = 1)"
  unfolding doRun_def Let_def by (rule doRun_loop_recorded)

lemma recorded_length: "recorded i srt new st st' \<Longrightarrow> length (units st') = length (units st)"
  by (simp add: recorded_def)

lemma recorded_aborted: "recorded i srt new st st' \<Longrightarrow> \<not> aborted st' \<Longrightarrow> \<not> aborted st"
  by (auto simp: recorded_def)

lemma runs_loop_recorded:
  "runs_loop fuel env i unitFn p srt arc rn st = Some (out, st') \<Longrightarrow> i < length (units st) \<Longrightarrow>
   \<exists>new. recorded i srt new st st' \<and>
         (out = Inr () \<and> \<not> aborted st' \<longrightarrow> length new = nat (arc - int rn))"
proof (induction fuel env i unitFn p srt arc rn st rule: runs_loop.induct)
  case (1 fuel env i unitFn p srt arc rn st)
  note run = "1.prems"(1) and len = "1.prems"(2)
  show ?case
  proof (cases "int rn < arc")
    case False
    with run have "out = Inr ()" "st' = st" by (simp_all add: runs_loop.simps)
    with False show ?thesis
      by (intro exI[of _ "[]"]) (simp add: recorded_outside outside_refl)
  next
    case more: True
    show ?thesis
    proof (cases "aborted st")
      case True
      with run more have "st' = st" "out \<noteq> Inr ()"
        by (auto simp: runs_loop.simps checkpoint_def)
      then show ?thesis
        by (intro exI[of _ "[]"]) (simp add: recorded_outside outside_refl)
    next
      case False
      then have cp: "checkpoint st = Inr ()" by (simp add: checkpoint_def)
      have oy: "outside st (yield env st)" by (rule outside_yield)
      have leny: "i < length (units (yield env st))" using oy len by (simp add: outside_def)
      show ?thesis
      proof (cases "doRun fuel env i unitFn p srt (yield env st)")
        case None
        with run more cp show ?thesis by (simp add: runs_loop.simps)
      next
        case (Some a)
        obtain r1 st1 where a: "a = (r1, st1)" by force
        from doRun_recorded[OF Some[unfolded a] leny] obtain n1 where
          n1: "recorded i srt n1 (yield env st) st1" "length n1 \<le> 1"
              "r1 = Inr () \<and> \<not> aborted st1 \<longrightarrow> length n1 = 1" by blast
        have r01: "recorded i srt n1 st st1"
          using recorded_trans[OF len recorded_outside[OF oy] n1(1)] by simp
        show ?thesis
        proof (cases r1)
          case (Inl e)
          with run more cp Some a have "out = Inl e" "st' = st1" by (simp_all add: runs_loop.simps)
          with r01 show ?thesis by auto
        next
          case (Inr u)
          with run more cp Some a
          have rec: "runs_loop fuel env i unitFn p srt arc (rn + 1) st1 = Some (out, st')"
            by (simp add: runs_loop.simps)
          have len1: "i < length (units st1)" using recorded_length[OF r01] len by simp
          from "1.IH"[OF more cp Some[unfolded a Inr] refl refl rec len1] obtain n2 where
            n2: "recorded i srt n2 st1 st'"
                "out = Inr () \<and> \<not> aborted st' \<longrightarrow> length n2 = nat (arc - int (rn + 1))" by blast
          have all: "recorded i srt (n1 @ n2) st st'" by (rule recorded_trans[OF len r01 n2(1)])
          have "length (n1 @ n2) = nat (arc - int rn)" if "out = Inr ()" "\<not> aborted st'"
          proof -
            have "\<not> aborted st1" using recorded_aborted[OF n2(1) that(2)] .
            with n1(3) Inr have "length n1 = 1" by simp
            moreover have "length n2 = nat (arc - int (rn + 1))" using n2(2) that by simp
            ultimately show ?thesis using more by simp
          qed
          with all show ?thesis by blast
        qed
      qed
    qed
  qed
qed

lemma cycle_args_append: "cycle_args (xs @ ys) = cycle_args xs @ cycle_args ys"
  by (induction xs rule: cycle_args.induct) simp_all

lemma sampling_recorded:
  assumes "sampling fuel env i st = Some (out, st')" and len: "i < length (units st)"
  shows "\<exists>new. recorded i (sampleRunTime st) new (set_samples i [] st) st' \<and>
           (out = Inr () \<and> \<not> aborted st' \<longrightarrow>
            length new = nat (if warmupTime st > 0 then clampedRuns st + 1 else clampedRuns st))"
proof -
  let ?st0 = "set_samples i [] st"
  let ?pf = "prepare (units ?st0 ! i)"
  let ?uf = "unit (units ?st0 ! i)"
  let ?arc = "if warmupTime st > 0 then clampedRuns st + 1 else clampedRuns st"
  have len0: "i < length (units ?st0)" using len by (simp add: set_samples_def)
  obtain r1 st1 where
    p: "(if js_typeof ?pf = ''function'' then call_await env ?pf ?st0 else (Inr VUndefined, ?st0)) = (r1, st1)"
    by force
  have o1: "outside ?st0 st1"
    using p by (auto split: if_splits dest: outside_call_await simp: outside_refl)
  show ?thesis
  proof (cases r1)
    case (Inl e)
    with assms(1) p have "out = Inl e" "st' = st1" by (simp_all add: sampling_def Let_def)
    with o1 show ?thesis by (intro exI[of _ "[]"]) (simp add: recorded_outside)
  next
    case (Inr v)
    obtain r2 st2 where q: "invoke env ?uf None st1 = (r2, st2)" by force
    have o2: "outside ?st0 st2" using o1 outside_invoke[OF q] by (rule outside_trans)
    show ?thesis
    proof (cases r2)
      case (Inl e)
      with assms(1) p Inr q have "out = Inl e" "st' = st2" by (simp_all add: sampling_def Let_def)
      with o2 show ?thesis by (intro exI[of _ "[]"]) (simp add: recorded_outside)
    next
      case res: (Inr res)
      from assms(1) p Inr q res
      have rl: "runs_loop fuel env i ?uf (isPromise res) (sampleRunTime st) ?arc 0 st2 = Some (out, st')"
        by (simp add: sampling_def Let_def)
      have len2: "i < length (units st2)" using o2 len0 by (simp add: outside_def)
      from runs_loop_recorded[OF rl len2] obtain new where
        n: "recorded i (sampleRunTime st) new st2 st'"
           "out = Inr () \<and> \<not> aborted st' \<longrightarrow> length new = nat (?arc - int 0)" by blast
      have "recorded i (sampleRunTime st) new ?st0 st'"
        using recorded_trans[OF len0 recorded_outside[OF o2] n(1)] by simp
      with n(2) show ?thesis by (intro exI[of _ new]) simp
    qed
  qed
qed

lemma sampling_state:
  assumes "sampling fuel env i st = Some (out, st')" and len: "i < length (units st)"
  shows "length (units st') = length (units st)"
    and "warmupTime st' = warmupTime st" and "maxUnitTime st' = maxUnitTime st"
    and "runsPerUnit st' = runsPerUnit st" and "unitResults st' = unitResults st"
    and "trace st' = trace st" and "aborted st \<Longrightarrow> aborted st'"
    and "name (units st' ! i) = name (units st ! i)"
    and "teardown (units st' ! i) = teardown (units st ! i)"
    and "warmup (units st' ! i) = warmup (units st ! i)"
    and "\<forall>s \<in> set (samples (units st' ! i)). 1 \<le> hits s \<and> js_ge (Num (of_int (duration s))) (sampleRunTime st)"
    and "out = Inr () \<Longrightarrow> \<not> aborted st' \<Longrightarrow>
         length (samples (units st' ! i)) =
           nat (if warmupTime st > 0 then clampedRuns st + 1 else clampedRuns st)"
  using sampling_recorded[OF assms] len
  by (auto simp: recorded_def set_samples_def)







section \<open>Lemmas about the statistics and about \<^verbatim>\<open>add\<close>\<close>

lemma foldl_js_add_hits:
  "foldl (\<lambda>s v. js_add s (Num (of_nat (hits v)))) (Num a) smp = Num (a + (\<Sum>s\<leftarrow>smp. real (hits s)))"
  by (induction smp arbitrary: a) (simp_all add: add.assoc)

lemma foldl_js_add_squares:
  "foldl (\<lambda>s v. js_add s v) (Num a) (map (\<lambda>v. js_pow2 (js_sub (Num (of_nat (hits v))) (Num m))) smp) =
   Num (a + (\<Sum>s\<leftarrow>smp. (real (hits s) - m) ^ 2))"
  by (induction smp arbitrary: a) (simp_all add: add.assoc js_sub_def)

lemma avg_hits_mean: "smp \<noteq> [] \<Longrightarrow> avg_hits smp = Num (mean_hits smp)"
  by (simp add: avg_hits_def mean_hits_def foldl_js_add_hits)

lemma sum_squares_nonneg: "0 \<le> (\<Sum>s\<leftarrow>smp. (real (hits s) - m) ^ 2)"
  by (induction smp) simp_all

lemma stdDev_hits_population:
  "smp \<noteq> [] \<Longrightarrow> stdDev_hits smp = Num (population_stdDev_hits smp)"
  by (simp add: stdDev_hits_def population_stdDev_hits_def avg_hits_mean foldl_js_add_squares
      sum_squares_nonneg)

lemma lookup_prop_absent: "k \<notin> fst ` set ps \<Longrightarrow> lookup_prop ps k = VUndefined"
proof -
  assume "k \<notin> fst ` set ps"
  then have "map_of ps k = None" by (simp add: map_of_eq_None_iff)
  then show ?thesis by (simp add: lookup_prop_def)
qed

section \<open>Lemmas about aggregation, reporting and the loop over the units\<close>

lemma run_teardown_state:
  assumes "run_teardown env i st = (r, st1)"
  shows "units st1 = units st" and "warmupTime st1 = warmupTime st"
    and "maxUnitTime st1 = maxUnitTime st" and "runsPerUnit st1 = runsPerUnit st"
    and "unitResults st1 = unitResults st" and "cycle_args (trace st1) = cycle_args (trace st)"
    and "aborted st \<Longrightarrow> aborted st1"
  using assms
  by (auto simp: run_teardown_def Let_def outside_def cycle_args_append
      split: if_splits prod.splits sum.splits dest!: outside_call_await)


lemma split_warmup_fields [simp]:
  "aborted (split_warmup i st) = aborted st"
  "trace (split_warmup i st) = trace st"
  "unitResults (split_warmup i st) = unitResults st"
  "warmupTime (split_warmup i st) = warmupTime st"
  "maxUnitTime (split_warmup i st) = maxUnitTime st"
  "runsPerUnit (split_warmup i st) = runsPerUnit st"
  "length (units (split_warmup i st)) = length (units st)"
  by (simp_all add: split_warmup_def Let_def)

lemma split_warmup_cong:
  "units st1 = units st \<Longrightarrow> warmupTime st1 = warmupTime st \<Longrightarrow>
   units (split_warmup i st1) = units (split_warmup i st)"
  by (simp add: split_warmup_def Let_def)

lemma call_onCycle_state:
  assumes "call_onCycle env onCycle r st = (out, st')"
  shows "units st' = units st" and "unitResults st' = unitResults st"
    and "warmupTime st' = warmupTime st" and "maxUnitTime st' = maxUnitTime st"
    and "runsPerUnit st' = runsPerUnit st"
    and "out = Inr () \<Longrightarrow> cycle_args (trace st') = cycle_args (trace st) @ (if truthy onCycle then [r] else [])"
  using assms
  by (auto simp: call_onCycle_def outside_def cycle_args_append
      split: if_splits prod.splits sum.splits jsval.splits dest!: outside_invoke)



lemma finish_ok:
  assumes fin: "finish env onCycle i st = (Inr (), st')"
  shows "\<not> aborted st"
    and "unitResults st' = unitResults st @ [make_results (sampleRunTime st) (units (split_warmup i st) ! i)]"
    and "cycle_args (trace st') = cycle_args (trace st) @
           (if truthy onCycle then [make_results (sampleRunTime st) (units (split_warmup i st) ! i)] else [])"
    and "length (units st') = length (units st)"
proof -
  obtain r st1 where td: "run_teardown env i st = (r, st1)" by force
  note ts = run_teardown_state[OF td]
  from fin td obtain v where r: "r = Inr v" by (cases r) (simp_all add: finish_def)
  let ?st2 = "split_warmup i st1"
  let ?u = "units ?st2 ! i"
  let ?st3 = "?st2\<lparr>trace := trace ?st2 @ [EvStats i (length (samples ?u)) (avg_hits (samples ?u)) (stdDev_hits (samples ?u))]\<rparr>"
  have nab: "\<not> aborted st1" using fin td r by (auto simp: finish_def Let_def checkpoint_def split: if_splits)
  then show "\<not> aborted st" using ts(7) by blast
  let ?res = "make_results (sampleRunTime ?st3) ?u"
  have call: "call_onCycle env onCycle ?res (?st3\<lparr>unitResults := unitResults ?st3 @ [?res]\<rparr>) = (Inr (), st')"
    using fin td r nab by (simp add: finish_def Let_def checkpoint_def)
  have srt: "sampleRunTime ?st3 = sampleRunTime st" using ts by (simp add: sampleRunTime_def)
  have us: "units ?st2 = units (split_warmup i st)" using ts by (intro split_warmup_cong) simp_all
  note cs = call_onCycle_state[OF call]
  show "unitResults st' = unitResults st @ [make_results (sampleRunTime st) (units (split_warmup i st) ! i)]"
    using cs(2) ts srt us by simp
  show "cycle_args (trace st') = cycle_args (trace st) @
           (if truthy onCycle then [make_results (sampleRunTime st) (units (split_warmup i st) ! i)] else [])"
    using cs(6) ts srt us by (simp add: cycle_args_append)
  show "length (units st') = length (units st)"
    using cs(1) ts by simp
qed



lemma run_unit_ok:
  assumes "run_unit fuel env onCycle i st = Some (Inr (), st')"
  shows "\<exists>st1. sampling fuel env i st = Some (Inr (), st1) \<and> finish env onCycle i st1 = (Inr (), st')"
  using assms
  by (auto simp: run_unit_def checkpoint_def split: if_splits option.splits sum.splits prod.splits)


lemma run_unit_cycle:
  assumes ru: "run_unit fuel env onCycle i st = Some (Inr (), st')" and len: "i < length (units st)"
    and cb: "truthy onCycle"
  shows "\<exists>r. unitResults st' = unitResults st @ [r] \<and>
             cycle_args (trace st') = cycle_args (trace st) @ [r]"
    and "length (units st') = length (units st)"
proof -
  from run_unit_ok[OF ru] obtain st1 where
    s: "sampling fuel env i st = Some (Inr (), st1)" and f: "finish env onCycle i st1 = (Inr (), st')"
    by blast
  note ss = sampling_state[OF s len]
  note fo = finish_ok[OF f]
  show "\<exists>r. unitResults st' = unitResults st @ [r] \<and>
             cycle_args (trace st') = cycle_args (trace st) @ [r]"
    using fo(2,3) ss(5,6) cb by simp
  show "length (units st') = length (units st)"
    using fo(4) ss(1) by simp
qed

lemma units_loop_cycles:
  "units_loop fuel env onCycle idx st = Some (Inr results, st') \<Longrightarrow>
   \<forall>i \<in> set idx. i < length (units st) \<Longrightarrow> truthy onCycle \<Longrightarrow>
   cycle_args (trace st) = unitResults st \<Longrightarrow>
   results = unitResults st' \<and> cycle_args (trace st') = unitResults st'"
proof (induction idx arbitrary: st)
  case Nil
  then show ?case by auto
next
  case (Cons i rest)
  from Cons.prems(1) obtain st1 where
    ru: "run_unit fuel env onCycle i st = Some (Inr (), st1)" and
    ul: "units_loop fuel env onCycle rest st1 = Some (Inr results, st')"
    by (auto split: option.splits sum.splits prod.splits)
  have len: "i < length (units st)" using Cons.prems(2) by simp
  from run_unit_cycle[OF ru len Cons.prems(3)] obtain r where
    r: "unitResults st1 = unitResults st @ [r]" "cycle_args (trace st1) = cycle_args (trace st) @ [r]"
    and l: "length (units st1) = length (units st)" by blast
  have "\<forall>i \<in> set rest. i < length (units st1)" using Cons.prems(2) l by simp
  moreover have "cycle_args (trace st1) = unitResults st1" using r Cons.prems(4) by simp
  ultimately show ?case using Cons.IH[OF ul _ Cons.prems(3)] by blast
qed



lemma get_truthy: "js_get options k = Inr cb \<Longrightarrow> truthy cb \<Longrightarrow> truthy options"
proof (cases options)
  case (VNum x)
  assume "js_get options k = Inr cb" "truthy cb"
  with VNum show ?thesis by simp
qed (auto split: if_splits)


lemma make_results_totals:
  assumes "samples u \<noteq> []"
  shows "runs (res_totals (make_results srt u)) = length (samples u) \<and>
         avg (res_totals (make_results srt u)) = rate srt (mean_hits (samples u)) \<and>
         stdDev (res_totals (make_results srt u)) = rate srt (population_stdDev_hits (samples u))"
  using assms
  by (simp add: make_results_def toPerSec_def rate_def avg_hits_mean stdDev_hits_population)

lemma split_warmup_samples:
  "i < length (units st) \<Longrightarrow>
   samples (units (split_warmup i st) ! i) =
     (if 0 < warmupTime st \<and> samples (units st ! i) \<noteq> []
      then tl (samples (units st ! i)) else samples (units st ! i))"
  by (simp add: split_warmup_def Let_def)

section \<open>Concrete runs\<close>

lemmas eval_defs =
  run_def example_runner_def example_env_def run_unit_def sampling_def finish_def
  checkpoint_def clampedRuns_def sampleRunTime_def set_samples_def push_sample_def
  invoke_def await_def call_await_def yield_def absorb_def doRun_def runs_loop.simps
  eval_nat_numeral run_teardown_def split_warmup_def make_results_def call_onCycle_def
  avg_hits_def stdDev_hits_def toPerSec_def isPromise_def upt_rec Let_def lookup_prop_def
  abortError_def js_sub_def abort_def

lemma steady_sampling:
  "sampling 5 example_env 0 steady_runner = Some (Inr (), steady_sampled)"
  by (simp add: steady_runner_def steady_sampled_def steady_sample_def eval_defs)


lemma steady_run:
  "run 5 example_env (VObj [(''onCycle'', VFun 2 [])]) steady_runner =
     Some (Inr [steady_result], steady_reported)"
  by (simp add: steady_runner_def steady_reported_def steady_result_def steady_sample_def
      eval_defs)






lemma steady_finish:
  "finish example_env VUndefined 0 steady_sampled = (Inr (), steady_done)"
  by (simp add: steady_sampled_def steady_done_def steady_result_def steady_sample_def eval_defs)

lemma steady_run_plain:
  "run 5 example_env VUndefined steady_runner = Some (Inr [steady_result], steady_done)"
  by (simp add: steady_runner_def steady_done_def steady_result_def steady_sample_def eval_defs)


section \<open>The claims\<close>

text \<open>
  C1. Claimed: the sample window lasts \<open>maxUnitTime\<close> divided by the clamped
  \<open>runsPerUnit\<close>. The code clamps the count (line 150) but divides by the unclamped
  setting (line 151): with \<open>runsPerUnit = 0\<close> and the default 5000 ms the window is
  infinite, with \<open>runsPerUnit = -2\<close> it is -2500 ms, where the clamped quotient is 5000.
\<close>

theorem sampleRunTime_ignores_clamp:
  "clampedRuns (setRunsPerUnit 0 (new_Benchmark 0 ())) = 1 \<and>
   sampleRunTime (setRunsPerUnit 0 (new_Benchmark 0 ())) = PInf \<and>
   sampleRunTime (setRunsPerUnit (- 2) (new_Benchmark 0 ())) = Num (- 2500) \<and>
   js_div (Num (of_int (maxUnitTime (setRunsPerUnit 0 (new_Benchmark 0 ())))))
          (Num (of_int (clampedRuns (setRunsPerUnit 0 (new_Benchmark 0 ()))))) = Num 5000"
  by (simp add: clampedRuns_def sampleRunTime_def setRunsPerUnit_def new_Benchmark_def)

text \<open>
  C2. Claimed: a bare callable is registered with no prepare and no teardown, whatever
  properties it carries. Counterexample: a callable with a \<open>prepare\<close> property is
  registered with that property as its prepare function.
\<close>

theorem add_callable_with_prepare_counterexample:
  "add ''u'' (VFun 1 [(''prepare'', VFun 2 [])]) (new_Benchmark 0 ()) =
     Inr ((new_Benchmark 0 ())\<lparr>units :=
       [\<lparr>name = ''u'', prepare = VFun 2 [], unit = VFun 1 [(''prepare'', VFun 2 [])],
         teardown = VUndefined, samples = [], warmup = None\<rparr>]\<rparr>)"
  by (simp add: add_def new_Benchmark_def lookup_prop_def)

text \<open>
  C2, amended. A bare callable \<open>f\<close> is registered as the unit function; its prepare and
  teardown are the callable's own \<open>prepare\<close> and \<open>teardown\<close> properties, which are
  undefined when the callable carries no such property.
\<close>

theorem add_bare_callable:
  "add nm (VFun f ps) st =
     Inr (st\<lparr>units := units st @
       [\<lparr>name = nm, prepare = lookup_prop ps ''prepare'', unit = VFun f ps,
         teardown = lookup_prop ps ''teardown'', samples = [], warmup = None\<rparr>]\<rparr>) \<and>
   (''prepare'' \<notin> fst ` set ps \<longrightarrow> lookup_prop ps ''prepare'' = VUndefined) \<and>
   (''teardown'' \<notin> fst ` set ps \<longrightarrow> lookup_prop ps ''teardown'' = VUndefined)"
  by (simp add: add_def lookup_prop_absent)

theorem add_bare_callable_witness:
  "''prepare'' \<notin> fst ` set [] \<and> ''teardown'' \<notin> fst ` set [] \<and>
   add ''u'' (VFun 1 []) (new_Benchmark 0 ()) =
     Inr ((new_Benchmark 0 ())\<lparr>units :=
       [\<lparr>name = ''u'', prepare = VUndefined, unit = VFun 1 [],
         teardown = VUndefined, samples = [], warmup = None\<rparr>]\<rparr>)"
  using add_bare_callable[of "''u''" 1 "[]" "new_Benchmark 0 ()"]
  by (simp add: new_Benchmark_def)









text \<open>
  C6. When a unit with at least one sample left after the warmup split completes, the
  result appended for it holds those samples, \<open>runs\<close> is their number, \<open>avg\<close> is
  the rate of the arithmetic mean of their hits and \<open>stdDev\<close> the rate of the
  population standard deviation of their hits, the rate of \<open>x\<close> being
  \<open>x * (1000 / sampleRunTime)\<close>.
\<close>

theorem totals_are_rates_of_mean_and_population_stdDev:
  assumes "finish env onCycle i st = (Inr (), st')" and "i < length (units st)"
    and "kept = (if 0 < warmupTime st \<and> samples (units st ! i) \<noteq> []
                 then tl (samples (units st ! i)) else samples (units st ! i))"
    and "kept \<noteq> []"
  shows "\<exists>r. unitResults st' = unitResults st @ [r] \<and>
             res_samples r = kept \<and>
             runs (res_totals r) = length kept \<and>
             avg (res_totals r) = rate (sampleRunTime st) (mean_hits kept) \<and>
             stdDev (res_totals r) = rate (sampleRunTime st) (population_stdDev_hits kept)"
proof -
  let ?u = "units (split_warmup i st) ! i"
  let ?r = "make_results (sampleRunTime st) ?u"
  have k: "samples ?u = kept" using split_warmup_samples[OF assms(2)] assms(3) by simp
  have "unitResults st' = unitResults st @ [?r]" by (rule finish_ok(2)[OF assms(1)])
  moreover have "res_samples ?r = kept" using k by (simp add: make_results_def)
  moreover note make_results_totals[of ?u "sampleRunTime st"] k assms(4)
  ultimately show ?thesis by auto
qed

theorem totals_witness:
  "finish example_env VUndefined 0 steady_sampled = (Inr (), steady_done) \<and>
   0 < length (units steady_sampled) \<and>
   0 < warmupTime steady_sampled \<and>
   samples (units steady_sampled ! 0) = [steady_sample, steady_sample, steady_sample] \<and>
   unitResults steady_done = unitResults steady_sampled @ [steady_result] \<and>
   res_totals steady_result = \<lparr>runs = 2, avg = Num 10, stdDev = Num 0\<rparr> \<and>
   rate (sampleRunTime steady_sampled) (mean_hits [steady_sample, steady_sample]) = Num 10 \<and>
   rate (sampleRunTime steady_sampled) (population_stdDev_hits [steady_sample, steady_sample]) = Num 0"
proof -
  have l: "0 < length (units steady_sampled)" and w: "0 < warmupTime steady_sampled"
    and s: "samples (units steady_sampled ! 0) = [steady_sample, steady_sample, steady_sample]"
    by (simp_all add: steady_sampled_def)
  have k: "[steady_sample, steady_sample] =
             (if 0 < warmupTime steady_sampled \<and> samples (units steady_sampled ! 0) \<noteq> []
              then tl (samples (units steady_sampled ! 0)) else samples (units steady_sampled ! 0))"
    using w s by simp
  have ne: "[steady_sample, steady_sample] \<noteq> []" by simp
  from totals_are_rates_of_mean_and_population_stdDev[OF steady_finish l k ne]
  have "avg (res_totals steady_result) =
          rate (sampleRunTime steady_sampled) (mean_hits [steady_sample, steady_sample])"
    and "stdDev (res_totals steady_result) =
          rate (sampleRunTime steady_sampled) (population_stdDev_hits [steady_sample, steady_sample])"
    by (simp_all add: steady_done_def steady_sampled_def)
  with steady_finish l w s show ?thesis
    by (simp add: steady_done_def steady_sampled_def steady_result_def)
qed

text \<open>
  C7. Claimed: for every \<^verbatim>\<open>run\<close> that fulfils, the fulfilled list is the list of the
  arguments of the calls of \<^verbatim>\<open>onCycle\<close>. Counterexample: \<^verbatim>\<open>run\<close> without options
  fulfils with one result and calls no \<^verbatim>\<open>onCycle\<close>.
\<close>

theorem run_without_onCycle_counterexample:
  "run 5 example_env VUndefined steady_runner = Some (Inr [steady_result], steady_done) \<and>
   cycle_args (trace steady_done) = []"
  by (simp add: steady_run_plain) (simp add: steady_done_def)

text \<open>
  C7, amended. When \<^verbatim>\<open>run\<close> is given an \<^verbatim>\<open>onCycle\<close> callback and fulfils, the
  fulfilled list of results is the list of the arguments of the calls of \<^verbatim>\<open>onCycle\<close>,
  element for element and in the same order.
\<close>

theorem fulfilled_results_are_onCycle_arguments:
  assumes "run fuel env options st = Some (Inr results, st')"
    and "js_get options ''onCycle'' = Inr cb" and "truthy cb"
  shows "cycle_args (trace st') = results"
proof -
  let ?st0 = "st\<lparr>aborted := False, unitResults := [], trace := []\<rparr>"
  have "truthy options" using assms(2,3) by (rule get_truthy)
  with assms have ul: "units_loop fuel env cb [0 ..< length (units ?st0)] ?st0 = Some (Inr results, st')"
    by (simp add: run_def Let_def)
  from units_loop_cycles[OF ul _ assms(3)] show ?thesis by simp
qed

theorem fulfilled_results_are_onCycle_arguments_witness:
  "run 5 example_env (VObj [(''onCycle'', VFun 2 [])]) steady_runner =
     Some (Inr [steady_result], steady_reported) \<and>
   js_get (VObj [(''onCycle'', VFun 2 [])]) ''onCycle'' = Inr (VFun 2 []) \<and>
   truthy (VFun 2 []) \<and>
   cycle_args (trace steady_reported) = [steady_result]"
proof -
  have g: "js_get (VObj [(''onCycle'', VFun 2 [])]) ''onCycle'' = Inr (VFun 2 [])"
    by (simp add: lookup_prop_def)
  have t: "truthy (VFun 2 [])" by simp
  from fulfilled_results_are_onCycle_arguments[OF steady_run g t] steady_run g t
  show ?thesis by simp
qed




text \<open>
  C9. With no sample the mean and the standard deviation are computed without an error:
  both divisions by zero give NaN, and so do the two rates.
\<close>

theorem empty_samples_give_NaN:
  "avg_hits [] = NaN \<and> stdDev_hits [] = NaN \<and>
   res_totals (make_results srt (u\<lparr>samples := []\<rparr>)) = \<lparr>runs = 0, avg = NaN, stdDev = NaN\<rparr>"
  by (simp add: avg_hits_def stdDev_hits_def make_results_def toPerSec_def)

text \<open>
  C10. Every sample on a unit's list after its sampling phase has at least one hit.
\<close>

theorem recorded_samples_have_a_hit:
  assumes "sampling fuel env i st = Some (out, st')" and "i < length (units st)"
  shows "\<forall>s \<in> set (samples (units st' ! i)). 1 \<le> hits s"
  using sampling_state(11)[OF assms] by blast

theorem recorded_samples_have_a_hit_witness:
  "sampling 5 example_env 0 steady_runner = Some (Inr (), steady_sampled) \<and>
   0 < length (units steady_runner) \<and>
   samples (units steady_sampled ! 0) = [steady_sample, steady_sample, steady_sample] \<and>
   1 \<le> hits steady_sample"
proof -
  have l: "0 < length (units steady_runner)"
    by (simp add: steady_runner_def example_runner_def)
  have s: "samples (units steady_sampled ! 0) = [steady_sample, steady_sample, steady_sample]"
    by (simp add: steady_sampled_def)
  from recorded_samples_have_a_hit[OF steady_sampling l] s
  have "1 \<le> hits steady_sample" by simp
  with steady_sampling l s show ?thesis by simp
qed

end
